theory Spec2Isabelle
  imports Complex_Main
begin

section \<open>JavaScript strings, arrays and errors\<close>

text \<open>
  The library is the compiled class \<open>RipGrep\<close> of \<open>dist/index.js\<close>. Strings are modelled as
  \<^typ>\<open>string\<close>: sequences of code units below 256, which covers every flag the class
  writes and the line structure of the tool's output. Thrown errors are values of
  \<open>js_error\<close>; a method that can throw returns \<open>js_error + 'a\<close>, \<open>Inl\<close> being the throw.
\<close>

datatype js_error =
    Error string
  | SyntaxError
  | TypeError

text \<open>
  \<open>String.prototype.trim\<close> removes white space and line terminators from both ends. Below
  code unit 256 these are TAB, LF, VT, FF, CR, SPACE and NO-BREAK SPACE.
\<close>

definition is_white_space :: "char \<Rightarrow> bool" where
  "is_white_space c \<longleftrightarrow>
     c \<in> set [CHR 0x09, CHR 0x0A, CHR 0x0B, CHR 0x0C, CHR 0x0D, CHR 0x20, CHR 0xA0]"

definition js_trim :: "string \<Rightarrow> string" where
  "js_trim s = rev (dropWhile is_white_space (rev (dropWhile is_white_space s)))"

text \<open>
  \<open>s.split(sep)\<close> for a one-character separator: the pieces between the separators, so a
  string without separator (the empty string too) gives one piece.
\<close>

fun js_split :: "char \<Rightarrow> string \<Rightarrow> string list" where
  "js_split sep [] = [[]]"
| "js_split sep (c # cs) =
     (if c = sep then [] # js_split sep cs
      else (case js_split sep cs of
              [] \<Rightarrow> [[c]]
            | piece # pieces \<Rightarrow> (c # piece) # pieces))"

text \<open>\<open>xs.join(sep)\<close> on an array of strings.\<close>

fun js_join :: "string \<Rightarrow> string list \<Rightarrow> string" where
  "js_join sep [] = []"
| "js_join sep [x] = x"
| "js_join sep (x # y # ys) = x @ sep @ js_join sep (y # ys)"

text \<open>
  \<open>xs.filter(f)\<close> and \<open>xs.map(f)\<close> with a callback that may throw: the elements are visited in
  order and the first throw leaves the whole call. The callback of \<open>filter\<close> is given by the
  truth value (\<open>ToBoolean\<close>) of what it returns.
\<close>

fun js_filter :: "('a \<Rightarrow> js_error + bool) \<Rightarrow> 'a list \<Rightarrow> js_error + 'a list" where
  "js_filter f [] = Inr []"
| "js_filter f (x # xs) =
     (case f x of
        Inl e \<Rightarrow> Inl e
      | Inr keep \<Rightarrow>
          (case js_filter f xs of
             Inl e \<Rightarrow> Inl e
           | Inr ys \<Rightarrow> Inr (if keep then x # ys else ys)))"

fun js_map :: "('a \<Rightarrow> js_error + 'b) \<Rightarrow> 'a list \<Rightarrow> js_error + 'b list" where
  "js_map f [] = Inr []"
| "js_map f (x # xs) =
     (case f x of
        Inl e \<Rightarrow> Inl e
      | Inr y \<Rightarrow>
          (case js_map f xs of
             Inl e \<Rightarrow> Inl e
           | Inr ys \<Rightarrow> Inr (y # ys)))"

text \<open>
  The value a string returned by a callback has under \<open>ToBoolean\<close>; \<open>None\<close> is
  \<open>undefined\<close>.
\<close>

fun to_boolean :: "string option \<Rightarrow> bool" where
  "to_boolean None = False"
| "to_boolean (Some s) = (s \<noteq> [])"

subsection \<open>JSON values\<close>

text \<open>
  What \<open>JSON.parse\<close> returns. \<open>JSON.parse\<close> itself belongs to the runtime and is a
  parameter \<open>JSON_parse :: string \<Rightarrow> json option\<close> of the decoding views, \<open>None\<close> being
  its \<open>SyntaxError\<close>. An object is the list of its own properties.
\<close>

datatype json =
    JNull
  | JBool bool
  | JNumber rat
  | JString string
  | JArray "json list"
  | JObject "(string \<times> json) list"

text \<open>
  The property access \<open>data.type\<close>: a \<open>TypeError\<close> on \<open>null\<close>, the property of an object,
  \<open>undefined\<close> (\<open>None\<close>) on an object without it and on every other value.
\<close>

fun get_type :: "json \<Rightarrow> js_error + json option" where
  "get_type JNull = Inl TypeError"
| "get_type (JObject props) = Inr (map_of props ''type'')"
| "get_type (JBool b) = Inr None"
| "get_type (JNumber n) = Inr None"
| "get_type (JString s) = Inr None"
| "get_type (JArray vs) = Inr None"

section \<open>The class \<open>RipGrep\<close>\<close>

record RipGrep =
  pattern :: string
  path :: string
  rgPath :: string
  "output" :: string
  command :: "string list"

text \<open>The constructor; \<open>rgPath\<close> defaults to \<open>rg\<close>.\<close>

definition constructor :: "string \<Rightarrow> string \<Rightarrow> string \<Rightarrow> RipGrep" where
  \<open>constructor pattern' path' rgPath' =
     \<lparr>pattern = ''"'' @ pattern' @ ''"'', path = path', rgPath = rgPath',
      output = [], command = [rgPath']\<rparr>\<close>

definition constructor_default :: "string \<Rightarrow> string \<Rightarrow> RipGrep" where
  "constructor_default pattern' path' = constructor pattern' path' ''rg''"

subsection \<open>Option methods\<close>

text \<open>
  Every option method is \<open>this.command.push(token); return this\<close>. A parameter enters the
  token by template-literal interpolation, so the model takes the interpolated text (the
  parameter under \<open>ToString\<close>) as the argument. Methods whose name is a keyword or a
  library constant carry the suffix \<open>_flag\<close>.
\<close>

definition command_push :: "string \<Rightarrow> RipGrep \<Rightarrow> RipGrep" where
  "command_push token this = this\<lparr>command := command this @ [token]\<rparr>"

definition afterContext :: "string \<Rightarrow> RipGrep \<Rightarrow> RipGrep" where
  \<open>afterContext num this = command_push (''--after-context '' @ num) this\<close>

definition autoHybridRegex :: "RipGrep \<Rightarrow> RipGrep" where
  \<open>autoHybridRegex this = command_push ''--auto-hybrid-regex'' this\<close>

definition beforeContext :: "string \<Rightarrow> RipGrep \<Rightarrow> RipGrep" where
  \<open>beforeContext num this = command_push (''--before-context '' @ num) this\<close>

definition binary :: "RipGrep \<Rightarrow> RipGrep" where
  \<open>binary this = command_push ''--binary'' this\<close>

definition blockBuffered :: "RipGrep \<Rightarrow> RipGrep" where
  \<open>blockBuffered this = command_push ''--block-buffered'' this\<close>

definition byteOffset :: "RipGrep \<Rightarrow> RipGrep" where
  \<open>byteOffset this = command_push ''--byte-offset'' this\<close>

definition caseSensitive :: "RipGrep \<Rightarrow> RipGrep" where
  \<open>caseSensitive this = command_push ''--case-sensitive'' this\<close>

definition color :: "string \<Rightarrow> RipGrep \<Rightarrow> RipGrep" where
  \<open>color when this = command_push (''--color '' @ when) this\<close>

definition colors :: "string \<Rightarrow> RipGrep \<Rightarrow> RipGrep" where
  \<open>colors colorSpec this = command_push (''--colors "'' @ colorSpec @ ''"'') this\<close>

definition column :: "RipGrep \<Rightarrow> RipGrep" where
  \<open>column this = command_push ''--column'' this\<close>

definition context_flag :: "string \<Rightarrow> RipGrep \<Rightarrow> RipGrep" where
  \<open>context_flag num this = command_push (''--context '' @ num) this\<close>

definition contextSeparator :: "string \<Rightarrow> RipGrep \<Rightarrow> RipGrep" where
  \<open>contextSeparator separator this = command_push (''--context-separator "'' @ separator @ ''"'') this\<close>

definition count :: "RipGrep \<Rightarrow> RipGrep" where
  \<open>count this = command_push ''--count'' this\<close>

definition countMatches :: "RipGrep \<Rightarrow> RipGrep" where
  \<open>countMatches this = command_push ''--count-matches'' this\<close>

definition crlf :: "RipGrep \<Rightarrow> RipGrep" where
  \<open>crlf this = command_push ''--crlf'' this\<close>

definition debug :: "RipGrep \<Rightarrow> RipGrep" where
  \<open>debug this = command_push ''--debug'' this\<close>

definition dfaSizeLimit :: "string \<Rightarrow> RipGrep \<Rightarrow> RipGrep" where
  \<open>dfaSizeLimit num_suffix this = command_push (''--dfa-size-limir "'' @ num_suffix @ ''"'') this\<close>

definition encoding :: "string \<Rightarrow> RipGrep \<Rightarrow> RipGrep" where
  \<open>encoding encoding' this = command_push (''--encoding "'' @ encoding' @ ''"'') this\<close>

definition file_flag :: "string \<Rightarrow> RipGrep \<Rightarrow> RipGrep" where
  \<open>file_flag pattern' this = command_push (''--file "'' @ pattern' @ ''"'') this\<close>

definition files :: "RipGrep \<Rightarrow> RipGrep" where
  \<open>files this = command_push ''--files'' this\<close>

definition filesWithMatches :: "RipGrep \<Rightarrow> RipGrep" where
  \<open>filesWithMatches this = command_push ''--files-with-matches'' this\<close>

definition filesWithoutMatch :: "RipGrep \<Rightarrow> RipGrep" where
  \<open>filesWithoutMatch this = command_push ''--files-without-match'' this\<close>

definition fixedStrings :: "RipGrep \<Rightarrow> RipGrep" where
  \<open>fixedStrings this = command_push ''--fixed-strings'' this\<close>

definition follow :: "RipGrep \<Rightarrow> RipGrep" where
  \<open>follow this = command_push ''--follow'' this\<close>

definition glob :: "string \<Rightarrow> RipGrep \<Rightarrow> RipGrep" where
  \<open>glob pattern' this = command_push (''--glob "'' @ pattern' @ ''"'') this\<close>

definition heading :: "RipGrep \<Rightarrow> RipGrep" where
  \<open>heading this = command_push ''--heading'' this\<close>

definition hidden :: "RipGrep \<Rightarrow> RipGrep" where
  \<open>hidden this = command_push ''--hidden'' this\<close>

definition iglob :: "string \<Rightarrow> RipGrep \<Rightarrow> RipGrep" where
  \<open>iglob iglob' this = command_push (''--iglob "'' @ iglob' @ ''"'') this\<close>

definition ignoreCase :: "RipGrep \<Rightarrow> RipGrep" where
  \<open>ignoreCase this = command_push ''--ignore-case'' this\<close>

definition ignoreFile :: "string \<Rightarrow> RipGrep \<Rightarrow> RipGrep" where
  \<open>ignoreFile path' this = command_push (''--ignore-file "'' @ path' @ ''"'') this\<close>

definition ignoreFileCaseInsensitive :: "RipGrep \<Rightarrow> RipGrep" where
  \<open>ignoreFileCaseInsensitive this = command_push ''--ignore-file-case-insensitive'' this\<close>

definition invertMatch :: "RipGrep \<Rightarrow> RipGrep" where
  \<open>invertMatch this = command_push ''--invert-match'' this\<close>

definition json :: "RipGrep \<Rightarrow> RipGrep" where
  \<open>json this = command_push ''--json'' this\<close>

definition lineBuffered :: "RipGrep \<Rightarrow> RipGrep" where
  \<open>lineBuffered this = command_push ''--line-buffered'' this\<close>

definition lineNumber :: "RipGrep \<Rightarrow> RipGrep" where
  \<open>lineNumber this = command_push ''--line-number'' this\<close>

definition lineRegexp :: "RipGrep \<Rightarrow> RipGrep" where
  \<open>lineRegexp this = command_push ''--line-regexp'' this\<close>

definition maxColumns :: "string \<Rightarrow> RipGrep \<Rightarrow> RipGrep" where
  \<open>maxColumns num this = command_push (''--max-columns '' @ num) this\<close>

definition maxColumnsPreview :: "RipGrep \<Rightarrow> RipGrep" where
  \<open>maxColumnsPreview this = command_push ''--max-columns-preview'' this\<close>

definition maxCount :: "string \<Rightarrow> RipGrep \<Rightarrow> RipGrep" where
  \<open>maxCount num this = command_push (''--max-count '' @ num) this\<close>

definition maxDepth :: "string \<Rightarrow> RipGrep \<Rightarrow> RipGrep" where
  \<open>maxDepth num this = command_push (''--max-depth '' @ num) this\<close>

definition maxFilesize :: "string \<Rightarrow> RipGrep \<Rightarrow> RipGrep" where
  \<open>maxFilesize num_suffix this = command_push (''--max-filesize "'' @ num_suffix @ ''"'') this\<close>

definition mmap :: "RipGrep \<Rightarrow> RipGrep" where
  \<open>mmap this = command_push ''--mmap'' this\<close>

definition multiline :: "RipGrep \<Rightarrow> RipGrep" where
  \<open>multiline this = command_push ''--multiline'' this\<close>

definition multilineDotall :: "RipGrep \<Rightarrow> RipGrep" where
  \<open>multilineDotall this = command_push ''--multiline-dotall'' this\<close>

definition noConfig :: "RipGrep \<Rightarrow> RipGrep" where
  \<open>noConfig this = command_push ''--no-config'' this\<close>

definition noFilename :: "RipGrep \<Rightarrow> RipGrep" where
  \<open>noFilename this = command_push ''--no-filename'' this\<close>

definition noHeading :: "RipGrep \<Rightarrow> RipGrep" where
  \<open>noHeading this = command_push ''--no-heading'' this\<close>

definition noIgnore :: "RipGrep \<Rightarrow> RipGrep" where
  \<open>noIgnore this = command_push ''--no-ignore'' this\<close>

definition noIgnoreDot :: "RipGrep \<Rightarrow> RipGrep" where
  \<open>noIgnoreDot this = command_push ''--no-ignore-dot'' this\<close>

definition noIgnoreGlobal :: "RipGrep \<Rightarrow> RipGrep" where
  \<open>noIgnoreGlobal this = command_push ''--no-ignore-global'' this\<close>

definition noIgnoreMessages :: "RipGrep \<Rightarrow> RipGrep" where
  \<open>noIgnoreMessages this = command_push ''--no-ignore-messages'' this\<close>

definition noIgnoreParent :: "RipGrep \<Rightarrow> RipGrep" where
  \<open>noIgnoreParent this = command_push ''--no-ignore-parent'' this\<close>

definition noIgnoreVcs :: "RipGrep \<Rightarrow> RipGrep" where
  \<open>noIgnoreVcs this = command_push ''--no-ignore-vcs'' this\<close>

definition noLineNumber :: "RipGrep \<Rightarrow> RipGrep" where
  \<open>noLineNumber this = command_push ''--no-line-number'' this\<close>

definition noMessages :: "RipGrep \<Rightarrow> RipGrep" where
  \<open>noMessages this = command_push ''--no-messages'' this\<close>

definition noMmap :: "RipGrep \<Rightarrow> RipGrep" where
  \<open>noMmap this = command_push ''--no-mmap'' this\<close>

definition noPcre2Unicode :: "RipGrep \<Rightarrow> RipGrep" where
  \<open>noPcre2Unicode this = command_push ''--no-pcre2-unicode'' this\<close>

definition null_flag :: "RipGrep \<Rightarrow> RipGrep" where
  \<open>null_flag this = command_push ''--null'' this\<close>

definition nullData :: "RipGrep \<Rightarrow> RipGrep" where
  \<open>nullData this = command_push ''--null-data'' this\<close>

definition oneFileSystem :: "RipGrep \<Rightarrow> RipGrep" where
  \<open>oneFileSystem this = command_push ''--one-file-system'' this\<close>

definition onlyMatching :: "RipGrep \<Rightarrow> RipGrep" where
  \<open>onlyMatching this = command_push ''--only-matching'' this\<close>

definition passthru :: "RipGrep \<Rightarrow> RipGrep" where
  \<open>passthru this = command_push ''--passthru'' this\<close>

definition pathSeparator :: "string \<Rightarrow> RipGrep \<Rightarrow> RipGrep" where
  \<open>pathSeparator seperator this = command_push (''--path-separator "'' @ seperator @ ''"'') this\<close>

definition pcre2 :: "RipGrep \<Rightarrow> RipGrep" where
  \<open>pcre2 this = command_push ''--pcre2'' this\<close>

definition pcre2Version :: "RipGrep \<Rightarrow> RipGrep" where
  \<open>pcre2Version this = command_push ''--pcre2-version'' (this\<lparr>pattern := [], path := []\<rparr>)\<close>

definition pre :: "string \<Rightarrow> RipGrep \<Rightarrow> RipGrep" where
  \<open>pre command' this = command_push (''--pre "'' @ command' @ ''"'') this\<close>

definition preGlob :: "string \<Rightarrow> RipGrep \<Rightarrow> RipGrep" where
  \<open>preGlob glob' this = command_push (''--pre-glob "'' @ glob' @ ''"'') this\<close>

definition pretty :: "RipGrep \<Rightarrow> RipGrep" where
  \<open>pretty this = command_push ''--pretty'' this\<close>

definition quite :: "RipGrep \<Rightarrow> RipGrep" where
  \<open>quite this = command_push ''--quite'' this\<close>

definition regexSizeLimit :: "string \<Rightarrow> RipGrep \<Rightarrow> RipGrep" where
  \<open>regexSizeLimit num_suffix this = command_push (''--regex-size-limit "'' @ num_suffix @ ''"'') this\<close>

definition regexp :: "string \<Rightarrow> RipGrep \<Rightarrow> RipGrep" where
  \<open>regexp pattern' this = command_push (''--regexp "'' @ pattern' @ ''"'') this\<close>

definition replace :: "string \<Rightarrow> RipGrep \<Rightarrow> RipGrep" where
  \<open>replace text' this = command_push (''--replace "'' @ text' @ ''"'') this\<close>

definition searchZip :: "RipGrep \<Rightarrow> RipGrep" where
  \<open>searchZip this = command_push ''--search-zip'' this\<close>

definition smartCase :: "RipGrep \<Rightarrow> RipGrep" where
  \<open>smartCase this = command_push ''--smart-case'' this\<close>

definition sort_flag :: "string \<Rightarrow> RipGrep \<Rightarrow> RipGrep" where
  \<open>sort_flag by this = command_push (''--sort '' @ by) this\<close>

definition sortr :: "string \<Rightarrow> RipGrep \<Rightarrow> RipGrep" where
  \<open>sortr by this = command_push (''--sortr '' @ by) this\<close>

definition status :: "RipGrep \<Rightarrow> RipGrep" where
  \<open>status this = command_push ''--stats'' this\<close>

definition text_flag :: "RipGrep \<Rightarrow> RipGrep" where
  \<open>text_flag this = command_push ''--text'' this\<close>

definition threads :: "string \<Rightarrow> RipGrep \<Rightarrow> RipGrep" where
  \<open>threads num this = command_push (''--threads '' @ num) this\<close>

definition trim :: "RipGrep \<Rightarrow> RipGrep" where
  \<open>trim this = command_push ''--trim'' this\<close>

definition type :: "string \<Rightarrow> RipGrep \<Rightarrow> RipGrep" where
  \<open>type type' this = command_push (''--type "'' @ type' @ ''"'') this\<close>

definition typeAdd :: "string \<Rightarrow> RipGrep \<Rightarrow> RipGrep" where
  \<open>typeAdd type_spec this = command_push (''--type-add "'' @ type_spec @ ''"'') this\<close>

definition typeClear :: "string \<Rightarrow> RipGrep \<Rightarrow> RipGrep" where
  \<open>typeClear type' this = command_push (''--type-clear "'' @ type' @ ''"'') this\<close>

definition typeList :: "RipGrep \<Rightarrow> RipGrep" where
  \<open>typeList this = command_push ''--type-list'' (this\<lparr>pattern := [], path := []\<rparr>)\<close>

definition typeNot :: "string \<Rightarrow> RipGrep \<Rightarrow> RipGrep" where
  \<open>typeNot type' this = command_push (''--type-not "'' @ type' @ ''"'') this\<close>

definition unrestricted :: "RipGrep \<Rightarrow> RipGrep" where
  \<open>unrestricted this = command_push ''--unrestricted'' this\<close>

definition vimgrep :: "RipGrep \<Rightarrow> RipGrep" where
  \<open>vimgrep this = command_push ''--vim-grep'' this\<close>

definition withFilename :: "RipGrep \<Rightarrow> RipGrep" where
  \<open>withFilename this = command_push ''--with-filename'' this\<close>

definition wordRegexp :: "RipGrep \<Rightarrow> RipGrep" where
  \<open>wordRegexp this = command_push ''--word-regexp'' this\<close>

subsection \<open>Calls\<close>

text \<open>One constructor per option method, and the method each call runs.\<close>

datatype (plugins only: code) option_call =
    AfterContext string
  | AutoHybridRegex
  | BeforeContext string
  | Binary
  | BlockBuffered
  | ByteOffset
  | CaseSensitive
  | Color string
  | Colors string
  | Column
  | Context string
  | ContextSeparator string
  | Count
  | CountMatches
  | Crlf
  | Debug
  | DfaSizeLimit string
  | Encoding string
  | File string
  | Files
  | FilesWithMatches
  | FilesWithoutMatch
  | FixedStrings
  | Follow
  | Glob string
  | Heading
  | Hidden
  | Iglob string
  | IgnoreCase
  | IgnoreFile string
  | IgnoreFileCaseInsensitive
  | InvertMatch
  | Json
  | LineBuffered
  | LineNumber
  | LineRegexp
  | MaxColumns string
  | MaxColumnsPreview
  | MaxCount string
  | MaxDepth string
  | MaxFilesize string
  | Mmap
  | Multiline
  | MultilineDotall
  | NoConfig
  | NoFilename
  | NoHeading
  | NoIgnore
  | NoIgnoreDot
  | NoIgnoreGlobal
  | NoIgnoreMessages
  | NoIgnoreParent
  | NoIgnoreVcs
  | NoLineNumber
  | NoMessages
  | NoMmap
  | NoPcre2Unicode
  | Null
  | NullData
  | OneFileSystem
  | OnlyMatching
  | Passthru
  | PathSeparator string
  | Pcre2
  | Pcre2Version
  | Pre string
  | PreGlob string
  | Pretty
  | Quite
  | RegexSizeLimit string
  | Regexp string
  | Replace string
  | SearchZip
  | SmartCase
  | Sort string
  | Sortr string
  | Status
  | Text
  | Threads string
  | Trim
  | Type string
  | TypeAdd string
  | TypeClear string
  | TypeList
  | TypeNot string
  | Unrestricted
  | Vimgrep
  | WithFilename
  | WordRegexp

primrec invoke :: "option_call \<Rightarrow> RipGrep \<Rightarrow> RipGrep" where
  "invoke (AfterContext num) = afterContext num"
| "invoke AutoHybridRegex = autoHybridRegex"
| "invoke (BeforeContext num) = beforeContext num"
| "invoke Binary = binary"
| "invoke BlockBuffered = blockBuffered"
| "invoke ByteOffset = byteOffset"
| "invoke CaseSensitive = caseSensitive"
| "invoke (Color when) = color when"
| "invoke (Colors colorSpec) = colors colorSpec"
| "invoke Column = column"
| "invoke (Context num) = context_flag num"
| "invoke (ContextSeparator separator) = contextSeparator separator"
| "invoke Count = count"
| "invoke CountMatches = countMatches"
| "invoke Crlf = crlf"
| "invoke Debug = debug"
| "invoke (DfaSizeLimit num_suffix) = dfaSizeLimit num_suffix"
| "invoke (Encoding encoding') = encoding encoding'"
| "invoke (File pattern') = file_flag pattern'"
| "invoke Files = files"
| "invoke FilesWithMatches = filesWithMatches"
| "invoke FilesWithoutMatch = filesWithoutMatch"
| "invoke FixedStrings = fixedStrings"
| "invoke Follow = follow"
| "invoke (Glob pattern') = glob pattern'"
| "invoke Heading = heading"
| "invoke Hidden = hidden"
| "invoke (Iglob iglob') = iglob iglob'"
| "invoke IgnoreCase = ignoreCase"
| "invoke (IgnoreFile path') = ignoreFile path'"
| "invoke IgnoreFileCaseInsensitive = ignoreFileCaseInsensitive"
| "invoke InvertMatch = invertMatch"
| "invoke Json = json"
| "invoke LineBuffered = lineBuffered"
| "invoke LineNumber = lineNumber"
| "invoke LineRegexp = lineRegexp"
| "invoke (MaxColumns num) = maxColumns num"
| "invoke MaxColumnsPreview = maxColumnsPreview"
| "invoke (MaxCount num) = maxCount num"
| "invoke (MaxDepth num) = maxDepth num"
| "invoke (MaxFilesize num_suffix) = maxFilesize num_suffix"
| "invoke Mmap = mmap"
| "invoke Multiline = multiline"
| "invoke MultilineDotall = multilineDotall"
| "invoke NoConfig = noConfig"
| "invoke NoFilename = noFilename"
| "invoke NoHeading = noHeading"
| "invoke NoIgnore = noIgnore"
| "invoke NoIgnoreDot = noIgnoreDot"
| "invoke NoIgnoreGlobal = noIgnoreGlobal"
| "invoke NoIgnoreMessages = noIgnoreMessages"
| "invoke NoIgnoreParent = noIgnoreParent"
| "invoke NoIgnoreVcs = noIgnoreVcs"
| "invoke NoLineNumber = noLineNumber"
| "invoke NoMessages = noMessages"
| "invoke NoMmap = noMmap"
| "invoke NoPcre2Unicode = noPcre2Unicode"
| "invoke Null = null_flag"
| "invoke NullData = nullData"
| "invoke OneFileSystem = oneFileSystem"
| "invoke OnlyMatching = onlyMatching"
| "invoke Passthru = passthru"
| "invoke (PathSeparator seperator) = pathSeparator seperator"
| "invoke Pcre2 = pcre2"
| "invoke Pcre2Version = pcre2Version"
| "invoke (Pre command') = pre command'"
| "invoke (PreGlob glob') = preGlob glob'"
| "invoke Pretty = pretty"
| "invoke Quite = quite"
| "invoke (RegexSizeLimit num_suffix) = regexSizeLimit num_suffix"
| "invoke (Regexp pattern') = regexp pattern'"
| "invoke (Replace text') = replace text'"
| "invoke SearchZip = searchZip"
| "invoke SmartCase = smartCase"
| "invoke (Sort by) = sort_flag by"
| "invoke (Sortr by) = sortr by"
| "invoke Status = status"
| "invoke Text = text_flag"
| "invoke (Threads num) = threads num"
| "invoke Trim = trim"
| "invoke (Type type') = type type'"
| "invoke (TypeAdd type_spec) = typeAdd type_spec"
| "invoke (TypeClear type') = typeClear type'"
| "invoke TypeList = typeList"
| "invoke (TypeNot type') = typeNot type'"
| "invoke Unrestricted = unrestricted"
| "invoke Vimgrep = vimgrep"
| "invoke WithFilename = withFilename"
| "invoke WordRegexp = wordRegexp"

text \<open>A chain of option calls \<open>rg.a().b()...\<close>, applied from left to right.\<close>

definition chain :: "option_call list \<Rightarrow> RipGrep \<Rightarrow> RipGrep" where
  "chain cs this = fold invoke cs this"

subsection \<open>Running the command\<close>

text \<open>
  \<open>execSync\<close> belongs to the runtime and is a parameter of \<open>run\<close>: the run of the child
  process as \<open>execSync\<close> reports it. Either it returns the captured standard output as text
  (\<open>Inr\<close>, paired with the standard error captured on the way), or it throws an error
  object carrying the captured \<open>stdout\<close> and \<open>stderr\<close> (\<open>Inl\<close>; \<open>None\<close> where the field is null
  or undefined).
\<close>

record exec_failure =
  stdout :: "string option"
  stderr :: "string option"

type_synonym exec_outcome = "exec_failure + string \<times> string option"

text \<open>
  What reaches the side channels of the calling process: a write to its standard error,
  or a value printed by \<open>console.log\<close>.
\<close>

datatype side_output =
    StderrWrite string
  | ConsoleLog "string option"

text \<open>
  \<open>run\<close> calls \<open>execSync(rgCommand)\<close> without a \<open>stdio\<close> option. For such a call
  \<open>execSync\<close> itself passes the captured standard error of the child on to the standard
  error of the caller, before it returns or throws:
  \<open>if (inheritStderr && ret.stderr) process.stderr.write(ret.stderr)\<close>.
\<close>

fun inherit_stderr :: "string option \<Rightarrow> side_output list" where
  "inherit_stderr None = []"
| "inherit_stderr (Some captured) = [StderrWrite captured]"

text \<open>
  The first two statements of \<open>run\<close> push the pattern and the path; the third joins the
  tokens into the local \<open>rgCommand\<close>.
\<close>

definition finalize :: "RipGrep \<Rightarrow> RipGrep" where
  "finalize this = (let this1 = command_push (pattern this) this in command_push (path this1) this1)"

definition rgCommand :: "RipGrep \<Rightarrow> string" where
  "rgCommand this = js_join '' '' (command this)"

text \<open>
  \<open>run\<close> returns the instance together with what reached the side channels, in order. The
  \<open>try\<close> covers the call of \<open>execSync\<close>, which passes the captured standard error on; the
  \<open>catch\<close> then prints \<open>error.stdout\<close> by \<open>console.log\<close>.
\<close>

definition run :: "(string \<Rightarrow> exec_outcome) \<Rightarrow> RipGrep \<Rightarrow> RipGrep \<times> side_output list" where
  "run execSync this =
     (let this2 = finalize this in
      case execSync (rgCommand this2) of
        Inr (out, captured) \<Rightarrow> (this2\<lparr>output := out\<rparr>, inherit_stderr captured)
      | Inl error \<Rightarrow> (this2, inherit_stderr (stderr error) @ [ConsoleLog (stdout error)]))"

text \<open>A call of the instance: an option method or \<open>run\<close>.\<close>

datatype call = OptionCall option_call | Run

fun step :: "(string \<Rightarrow> exec_outcome) \<Rightarrow> call \<Rightarrow> RipGrep \<Rightarrow> RipGrep" where
  "step execSync (OptionCall c) this = invoke c this"
| "step execSync Run this = fst (run execSync this)"

subsection \<open>Decoding views\<close>

definition asString :: "RipGrep \<Rightarrow> string" where
  "asString this = output this"

text \<open>
  The callback \<open>asObject\<close> passes to \<open>filter\<close>: it parses the line, reads \<open>data.type\<close> and
  returns the line when the type is \<open>"match"\<close>, \<open>undefined\<close> otherwise. The callback of its
  \<open>map\<close> parses the line again.
\<close>

definition asObject_filter_callback :: "(string \<Rightarrow> json option) \<Rightarrow> string \<Rightarrow> js_error + bool" where
  "asObject_filter_callback JSON_parse match =
     (case JSON_parse match of
        None \<Rightarrow> Inl SyntaxError
      | Some data \<Rightarrow>
          (case get_type data of
             Inl e \<Rightarrow> Inl e
           | Inr ty \<Rightarrow>
               Inr (to_boolean (if ty = Some (JString ''match'') then Some match else None))))"

definition asObject_map_callback :: "(string \<Rightarrow> json option) \<Rightarrow> string \<Rightarrow> js_error + json" where
  "asObject_map_callback JSON_parse a =
     (case JSON_parse a of None \<Rightarrow> Inl SyntaxError | Some v \<Rightarrow> Inr v)"

definition asObject :: "(string \<Rightarrow> json option) \<Rightarrow> RipGrep \<Rightarrow> js_error + json list" where
  "asObject JSON_parse this =
     (if ''--json'' \<notin> set (command this) then Inl (Error ''The json() method needs to be added'')
      else
        case js_filter (asObject_filter_callback JSON_parse)
               (js_split (CHR 0x0A) (js_trim (output this))) of
          Inl e \<Rightarrow> Inl e
        | Inr kept \<Rightarrow> js_map (asObject_map_callback JSON_parse) kept)"

text \<open>The callback \<open>asJson\<close> passes to \<open>filter\<close>, written out a second time in the source.\<close>

definition asJson_filter_callback :: "(string \<Rightarrow> json option) \<Rightarrow> string \<Rightarrow> js_error + bool" where
  "asJson_filter_callback JSON_parse match =
     (case JSON_parse match of
        None \<Rightarrow> Inl SyntaxError
      | Some data \<Rightarrow>
          (case get_type data of
             Inl e \<Rightarrow> Inl e
           | Inr ty \<Rightarrow>
               Inr (to_boolean (if ty = Some (JString ''match'') then Some match else None))))"

definition asJson :: "(string \<Rightarrow> json option) \<Rightarrow> RipGrep \<Rightarrow> js_error + string list" where
  "asJson JSON_parse this =
     (if ''--json'' \<notin> set (command this) then Inl (Error ''The json() method needs to be added'')
      else js_filter (asJson_filter_callback JSON_parse)
             (js_split (CHR 0x0A) (js_trim (output this))))"

subsection \<open>Observations and sample environments\<close>

text \<open>
  The lines a decoding view works on, and whether the record on a line has \<open>type\<close> equal to
  \<open>"match"\<close>.
\<close>

definition output_lines :: "RipGrep \<Rightarrow> string list" where
  "output_lines this = js_split (CHR 0x0A) (js_trim (output this))"

definition is_match_line :: "(string \<Rightarrow> json option) \<Rightarrow> string \<Rightarrow> bool" where
  "is_match_line JSON_parse l =
     (case JSON_parse l of
        None \<Rightarrow> False
      | Some data \<Rightarrow> get_type data = Inr (Some (JString ''match'')))"

text \<open>
  Sample runtimes for the examples: a process that succeeds printing \<open>out\<close> and nothing
  on its standard error, a process that fails with the given captured streams, an output of three JSON lines ending in a
  newline, and \<open>JSON.parse\<close> on the texts the examples apply
  it to: four valid lines, and its \<open>SyntaxError\<close> on the empty string and on the malformed
  line \<open>{\<close> (no example applies it to another text).
\<close>

definition execSync_prints :: "string \<Rightarrow> string \<Rightarrow> exec_outcome" where
  "execSync_prints out cmd = Inr (out, Some [])"

definition execSync_fails :: "string option \<Rightarrow> string option \<Rightarrow> string \<Rightarrow> exec_outcome" where
  "execSync_fails out err cmd = Inl \<lparr>stdout = out, stderr = err\<rparr>"

definition sample_output :: string where
  \<open>sample_output =
     ''{"type":"begin"}'' @ [CHR 0x0A] @
     ''{"type":"match","data":{"line_number":3}}'' @ [CHR 0x0A] @
     ''{"type":"end"}'' @ [CHR 0x0A]\<close>

definition sample_JSON_parse :: "string \<Rightarrow> json option" where
  \<open>sample_JSON_parse = map_of
     [(''{"type":"begin"}'', JObject [(''type'', JString ''begin'')]),
      (''{"type":"match","data":{"line_number":3}}'',
         JObject [(''type'', JString ''match''), (''data'', JObject [(''line_number'', JNumber 3)])]),
      (''{"type":"end"}'', JObject [(''type'', JString ''end'')]),
      (''null'', JNull)]\<close>


section \<open>Option methods append one token\<close>

lemmas option_defs =
  afterContext_def autoHybridRegex_def beforeContext_def binary_def blockBuffered_def
  byteOffset_def caseSensitive_def color_def colors_def column_def
  context_flag_def contextSeparator_def count_def countMatches_def crlf_def
  debug_def dfaSizeLimit_def encoding_def file_flag_def files_def
  filesWithMatches_def filesWithoutMatch_def fixedStrings_def follow_def glob_def
  heading_def hidden_def iglob_def ignoreCase_def ignoreFile_def
  ignoreFileCaseInsensitive_def invertMatch_def json_def lineBuffered_def lineNumber_def
  lineRegexp_def maxColumns_def maxColumnsPreview_def maxCount_def maxDepth_def
  maxFilesize_def mmap_def multiline_def multilineDotall_def noConfig_def
  noFilename_def noHeading_def noIgnore_def noIgnoreDot_def noIgnoreGlobal_def
  noIgnoreMessages_def noIgnoreParent_def noIgnoreVcs_def noLineNumber_def noMessages_def
  noMmap_def noPcre2Unicode_def null_flag_def nullData_def oneFileSystem_def
  onlyMatching_def passthru_def pathSeparator_def pcre2_def pcre2Version_def
  pre_def preGlob_def pretty_def quite_def regexSizeLimit_def
  regexp_def replace_def searchZip_def smartCase_def sort_flag_def
  sortr_def status_def text_flag_def threads_def trim_def
  type_def typeAdd_def typeClear_def typeList_def typeNot_def
  unrestricted_def vimgrep_def withFilename_def wordRegexp_def

lemma chain_Nil: "chain [] this = this"
  by (simp add: chain_def)
lemma chain_Cons: "chain (c # cs) this = chain cs (invoke c this)"
  by (simp add: chain_def)
lemma chain_snoc: "chain (cs @ [c]) this = invoke c (chain cs this)"
  by (simp add: chain_def)

lemma invoke_rgPath: "rgPath (invoke c this) = rgPath this"
  by (cases c) (simp_all add: option_defs command_push_def)

lemma invoke_output: "output (invoke c this) = output this"
  by (cases c) (simp_all add: option_defs command_push_def)

lemma invoke_pattern:
  "pattern (invoke c this) = (if c = Pcre2Version \<or> c = TypeList then [] else pattern this)"
  by (cases c) (simp_all add: option_defs command_push_def)

lemma invoke_path:
  "path (invoke c this) = (if c = Pcre2Version \<or> c = TypeList then [] else path this)"
  by (cases c) (simp_all add: option_defs command_push_def)

lemma invoke_json_token:
  "c \<noteq> Json \<Longrightarrow> \<exists>t. t \<noteq> ''--json'' \<and> command (invoke c this) = command this @ [t]"
  by (cases c) (simp_all add: option_defs command_push_def)

lemma invoke_token_shape:
  "\<exists>t. (\<forall>this. command (invoke c this) = command this @ [t]) \<and> take 2 t = ''--''"
  by (cases c) (simp_all add: option_defs command_push_def)


lemma chain_rgPath: "rgPath (chain cs this) = rgPath this"
  by (induction cs arbitrary: this) (simp_all add: chain_Nil chain_Cons invoke_rgPath)

lemma chain_output: "output (chain cs this) = output this"
  by (induction cs arbitrary: this) (simp_all add: chain_Nil chain_Cons invoke_output)

lemma chain_pattern:
  "pattern (chain cs this) = (if Pcre2Version \<in> set cs \<or> TypeList \<in> set cs then [] else pattern this)"
  by (induction cs rule: rev_induct) (auto simp add: chain_Nil chain_snoc invoke_pattern)

lemma chain_path:
  "path (chain cs this) = (if Pcre2Version \<in> set cs \<or> TypeList \<in> set cs then [] else path this)"
  by (induction cs rule: rev_induct) (auto simp add: chain_Nil chain_snoc invoke_path)

lemma chain_tokens:
  "\<exists>ts. length ts = length cs \<and> (\<forall>t\<in>set ts. take 2 t = ''--'') \<and> (\<forall>this. command (chain cs this) = command this @ ts)"
proof (induction cs rule: rev_induct)
  case Nil
  then show ?case by (simp add: chain_Nil)
next
  case (snoc c cs)
  then obtain ts where ts: "length ts = length cs" "\<forall>t\<in>set ts. take 2 t = ''--''"
    "\<forall>this. command (chain cs this) = command this @ ts" by blast
  obtain t where t: "\<forall>this. command (invoke c this) = command this @ [t]" "take 2 t = ''--''"
    using invoke_token_shape by blast
  have "length (ts @ [t]) = length (cs @ [c])" using ts by simp
  moreover have "\<forall>u\<in>set (ts @ [t]). take 2 u = ''--''" using ts t by auto
  moreover have "\<forall>this. command (chain (cs @ [c]) this) = command this @ (ts @ [t])"
    using ts t by (simp add: chain_snoc)
  ultimately show ?case by blast
qed

lemma chain_no_json:
  "Json \<notin> set cs \<Longrightarrow> (''--json'' \<in> set (command (chain cs this))) = (''--json'' \<in> set (command this))"
proof (induction cs rule: rev_induct)
  case Nil
  then show ?case by (simp add: chain_Nil)
next
  case (snoc c cs)
  then have "c \<noteq> Json" by auto
  then obtain t where "t \<noteq> ''--json''" "command (invoke c (chain cs this)) = command (chain cs this) @ [t]"
    using invoke_json_token by blast
  then show ?case using snoc by (auto simp add: chain_snoc)
qed

lemma js_join_snoc: "xs \<noteq> [] \<Longrightarrow> js_join sep (xs @ [y]) = js_join sep xs @ sep @ y"
  by (induction sep xs rule: js_join.induct) simp_all

lemma js_split_not_Nil: "js_split sep s \<noteq> []"
  by (induction s) (simp_all split: list.splits)

lemma js_split_snoc_sep: "js_split sep (s @ [sep]) = js_split sep s @ [[]]"
proof (induction s)
  case Nil
  show ?case by simp
next
  case (Cons c s)
  have "js_split sep s \<noteq> []" by (rule js_split_not_Nil)
  then obtain l ls where "js_split sep s = l # ls" by (cases "js_split sep s") auto
  then show ?case using Cons by simp
qed

lemma words_drop_trailing_space:
  "filter (\<lambda>w. w \<noteq> []) (js_split sep (s @ [sep])) = filter (\<lambda>w. w \<noteq> []) (js_split sep s)"
  by (simp add: js_split_snoc_sep)

lemma finalize_command: "command (finalize this) = command this @ [pattern this, path this]"
  by (simp add: finalize_def command_push_def Let_def)

lemma finalize_output: "output (finalize this) = output this"
  by (simp add: finalize_def command_push_def Let_def)

lemma finalize_rgPath: "rgPath (finalize this) = rgPath this"
  by (simp add: finalize_def command_push_def Let_def)

lemma js_join_snoc2:
  assumes "xs \<noteq> []"
  shows "js_join sep (xs @ [y, z]) = js_join sep xs @ sep @ y @ sep @ z"
proof -
  have "js_join sep ((xs @ [y]) @ [z]) = js_join sep (xs @ [y]) @ sep @ z"
    by (rule js_join_snoc) simp
  then show ?thesis using assms by (simp add: js_join_snoc)
qed

lemma rgCommand_finalize:
  "command this \<noteq> [] \<Longrightarrow>
   rgCommand (finalize this) = rgCommand this @ '' '' @ pattern this @ '' '' @ path this"
  by (simp add: rgCommand_def finalize_command js_join_snoc2)

lemma run_command: "command (fst (run execSync this)) = command this @ [pattern this, path this]"
  by (simp add: run_def Let_def finalize_command split: sum.splits prod.splits)

lemma run_rgPath: "rgPath (fst (run execSync this)) = rgPath this"
  by (simp add: run_def Let_def finalize_rgPath split: sum.splits prod.splits)

lemma chain_constructor_command:
  "\<exists>ts. length ts = length cs \<and> (\<forall>t\<in>set ts. take 2 t = ''--'') \<and>
     (\<forall>p q. command (chain cs (constructor p q r)) = r # ts)"
proof -
  obtain ts where ts: "length ts = length cs" "\<forall>t\<in>set ts. take 2 t = ''--''"
    "\<forall>this. command (chain cs this) = command this @ ts"
    using chain_tokens by blast
  have "\<forall>p q. command (chain cs (constructor p q r)) = r # ts"
    using ts(3) by (simp add: constructor_def)
  then show ?thesis using ts(1,2) by blast
qed

lemma steps_command:
  "\<exists>ts. command (fold (step execSync) calls this) = command this @ ts"
proof (induction calls rule: rev_induct)
  case Nil
  show ?case by simp
next
  case (snoc c calls)
  then obtain ts where ts: "command (fold (step execSync) calls this) = command this @ ts" by blast
  show ?case
  proof (cases c)
    case (OptionCall oc)
    obtain t where "\<forall>this. command (invoke oc this) = command this @ [t]"
      using invoke_token_shape by blast
    then show ?thesis using ts OptionCall by simp
  next
    case Run
    then show ?thesis using ts by (simp add: run_command)
  qed
qed

lemma steps_rgPath: "rgPath (fold (step execSync) calls this) = rgPath this"
proof (induction calls rule: rev_induct)
  case Nil
  show ?case by simp
next
  case (snoc c calls)
  then show ?case by (cases c) (simp_all add: invoke_rgPath run_rgPath)
qed

section \<open>The token sequence\<close>

lemma chain_command_not_Nil: "command (chain cs (constructor p q r)) \<noteq> []"
  using chain_constructor_command [of cs r] by auto

text \<open>
  Claim C9. Every option method appends exactly one token, whatever the instance, and
  leaves the earlier tokens, the executable path and the output as they were. In every
  state reached from the constructor by option calls and runs, token 0 is the executable
  path. Before \<open>run\<close> the token sequence is the executable path followed by one token per
  option call and does not depend on the pattern or the root path; \<open>run\<close> appends the
  pattern and the path behind these.
\<close>

theorem option_methods_append_one_token:
  "(\<exists>t. \<forall>this. command (invoke c this) = command this @ [t]
        \<and> rgPath (invoke c this) = rgPath this \<and> output (invoke c this) = output this)
   \<and> hd (command (fold (step execSync) calls (constructor p q r))) = r
   \<and> rgPath (fold (step execSync) calls (constructor p q r)) = r
   \<and> (\<exists>ts. length ts = length cs
         \<and> (\<forall>p' q'. command (chain cs (constructor p' q' r)) = r # ts)
         \<and> command (fst (run execSync (chain cs (constructor p q r))))
             = r # ts @ [pattern (chain cs (constructor p q r)), path (chain cs (constructor p q r))])"
proof -
  obtain t where t: "\<forall>this. command (invoke c this) = command this @ [t]"
    using invoke_token_shape by blast
  have one: "\<exists>t. \<forall>this. command (invoke c this) = command this @ [t]
        \<and> rgPath (invoke c this) = rgPath this \<and> output (invoke c this) = output this"
    using t by (auto simp add: invoke_rgPath invoke_output)
  obtain us where "command (fold (step execSync) calls (constructor p q r))
      = command (constructor p q r) @ us"
    using steps_command by blast
  then have two: "hd (command (fold (step execSync) calls (constructor p q r))) = r"
    by (simp add: constructor_def)
  have three: "rgPath (fold (step execSync) calls (constructor p q r)) = r"
    by (simp add: steps_rgPath constructor_def)
  obtain ts where ts: "length ts = length cs"
    "\<forall>p' q'. command (chain cs (constructor p' q' r)) = r # ts"
    using chain_constructor_command [of cs r] by blast
  have "command (fst (run execSync (chain cs (constructor p q r))))
      = r # ts @ [pattern (chain cs (constructor p q r)), path (chain cs (constructor p q r))]"
    using ts(2) by (simp add: run_command)
  then have four: "\<exists>ts. length ts = length cs
         \<and> (\<forall>p' q'. command (chain cs (constructor p' q' r)) = r # ts)
         \<and> command (fst (run execSync (chain cs (constructor p q r))))
             = r # ts @ [pattern (chain cs (constructor p q r)), path (chain cs (constructor p q r))]"
    using ts by blast
  show ?thesis using one two three four by blast
qed

section \<open>The precondition of the JSON views\<close>

text \<open>
  Claim C1, amended. For every pattern and root path, every executable path other than
  \<open>--json\<close> and every chain of option calls without \<open>json()\<close>, \<open>asJson()\<close> and \<open>asObject()\<close>
  called before \<open>run()\<close> throw the error \<open>The json() method needs to be added\<close>; called
  after \<open>run()\<close> they throw it when the root path is not the text \<open>--json\<close>.
\<close>

theorem precondition_failure_without_json:
  assumes "Json \<notin> set cs" and "r \<noteq> ''--json''"
  shows "asJson JSON_parse (chain cs (constructor p q r))
           = Inl (Error ''The json() method needs to be added'')
       \<and> asObject JSON_parse (chain cs (constructor p q r))
           = Inl (Error ''The json() method needs to be added'')
       \<and> (q \<noteq> ''--json'' \<longrightarrow>
            asJson JSON_parse (fst (run execSync (chain cs (constructor p q r))))
              = Inl (Error ''The json() method needs to be added'')
          \<and> asObject JSON_parse (fst (run execSync (chain cs (constructor p q r))))
              = Inl (Error ''The json() method needs to be added''))"
proof -
  let ?st = "chain cs (constructor p q r)"
  have before: "''--json'' \<notin> set (command ?st)"
    using assms by (simp add: chain_no_json constructor_def)
  have pat: "pattern ?st \<noteq> ''--json''"
    by (simp add: chain_pattern constructor_def)
  have "q \<noteq> ''--json'' \<Longrightarrow> path ?st \<noteq> ''--json''"
    by (simp add: chain_path constructor_def)
  then have after: "q \<noteq> ''--json'' \<Longrightarrow> ''--json'' \<notin> set (command (fst (run execSync ?st)))"
    using before pat by (simp add: run_command)
  show ?thesis using before after by (simp add: asJson_def asObject_def)
qed

theorem precondition_failure_without_json_witness:
  "Json \<notin> set [WithFilename, LineNumber] \<and> ''rg'' \<noteq> ''--json'' \<and> ''/tmp/fixtures'' \<noteq> ''--json''
   \<and> asJson sample_JSON_parse (chain [WithFilename, LineNumber] (constructor ''he[l]{2}o'' ''/tmp/fixtures'' ''rg''))
       = Inl (Error ''The json() method needs to be added'')
   \<and> asObject sample_JSON_parse
         (fst (run (execSync_prints ''a.txt:3:hello'')
            (chain [WithFilename, LineNumber] (constructor ''he[l]{2}o'' ''/tmp/fixtures'' ''rg''))))
       = Inl (Error ''The json() method needs to be added'')"
  using precondition_failure_without_json
    [where cs = "[WithFilename, LineNumber]" and r = "''rg''" and q = "''/tmp/fixtures''"
       and p = "''he[l]{2}o''" and JSON_parse = sample_JSON_parse
       and execSync = "execSync_prints ''a.txt:3:hello''"]
  by simp

text \<open>
  Claim C1 as stated fails for the root path \<open>--json\<close>: \<open>run()\<close> pushes the path as a token,
  the membership test of \<open>asJson()\<close> finds it, and the view decodes the output although
  \<open>json()\<close> was never called.
\<close>

theorem root_path_json_counterexample:
  \<open>Json \<notin> set []
   \<and> asJson sample_JSON_parse
        (fst (run (execSync_prints ''{"type":"match","data":{"line_number":3}}'')
           (chain [] (constructor ''x'' ''--json'' ''rg''))))
      = Inr [''{"type":"match","data":{"line_number":3}}'']\<close>
  by (simp add: asJson_def asJson_filter_callback_def run_def finalize_def command_push_def
      constructor_def chain_def execSync_prints_def rgCommand_def js_trim_def is_white_space_def
      sample_JSON_parse_def)

section \<open>The command line\<close>

text \<open>
  Claim C2. After a chain of option calls that contains \<open>pcre2Version()\<close> or \<open>typeList()\<close>,
  the pattern and the path are empty strings. \<open>run()\<close> pushes them as two empty strings, so
  the command line is the joined executable and option tokens followed by two spaces: its
  space-delimited tokens are those of the executable and the options, with no token for a
  pattern and none for a root path.
\<close>

theorem informational_modes_drop_pattern_and_path:
  assumes "Pcre2Version \<in> set cs \<or> TypeList \<in> set cs"
    and "this = chain cs (constructor p q r)"
  shows "pattern this = [] \<and> path this = []
       \<and> rgCommand (finalize this) = rgCommand this @ ''  ''
       \<and> filter (\<lambda>w. w \<noteq> []) (js_split (CHR '' '') (rgCommand (finalize this)))
           = filter (\<lambda>w. w \<noteq> []) (js_split (CHR '' '') (rgCommand this))"
proof -
  have pat: "pattern this = []" and pth: "path this = []"
    using assms by (simp_all add: chain_pattern chain_path)
  have "command this \<noteq> []"
    using assms(2) by (simp add: chain_command_not_Nil)
  then have line: "rgCommand (finalize this) = rgCommand this @ ''  ''"
    using pat pth by (simp add: rgCommand_finalize)
  have "rgCommand this @ ''  '' = (rgCommand this @ '' '') @ '' ''"
    by simp
  then have "filter (\<lambda>w. w \<noteq> []) (js_split (CHR '' '') (rgCommand this @ ''  ''))
           = filter (\<lambda>w. w \<noteq> []) (js_split (CHR '' '') (rgCommand this))"
    by (simp only: words_drop_trailing_space)
  then show ?thesis using pat pth line by simp
qed

theorem informational_modes_drop_pattern_and_path_witness:
  "(Pcre2Version \<in> set [WithFilename, Pcre2Version, LineNumber]
      \<or> TypeList \<in> set [WithFilename, Pcre2Version, LineNumber])
   \<and> rgCommand (finalize (chain [WithFilename, Pcre2Version, LineNumber]
          (constructor ''he[l]{2}o'' ''/tmp/fixtures'' ''rg'')))
       = rgCommand (chain [WithFilename, Pcre2Version, LineNumber]
          (constructor ''he[l]{2}o'' ''/tmp/fixtures'' ''rg'')) @ ''  ''"
  using informational_modes_drop_pattern_and_path
    [where cs = "[WithFilename, Pcre2Version, LineNumber]" and p = "''he[l]{2}o''"
       and q = "''/tmp/fixtures''" and r = "''rg''", OF _ refl]
  by simp

lemma sample_command_line:
  "rgCommand (finalize (chain [WithFilename, Pcre2Version, LineNumber]
          (constructor ''he[l]{2}o'' ''/tmp/fixtures'' ''rg'')))
    = ''rg --with-filename --pcre2-version --line-number  ''"
  by (simp add: rgCommand_def finalize_def command_push_def constructor_def chain_def
      withFilename_def pcre2Version_def lineNumber_def)

text \<open>
  Claim C8, amended. For every constructor input and every chain of option calls that
  contains neither \<open>pcre2Version()\<close> nor \<open>typeList()\<close>, the command line \<open>run()\<close> executes is
  the executable, one token per option call, the pattern enclosed in double quotes and the
  root path as given, joined by single spaces; \<open>run()\<close> consults \<open>execSync\<close> at this command
  line only.
\<close>

theorem command_line_shape:
  assumes "Pcre2Version \<notin> set cs" and "TypeList \<notin> set cs"
    and "this = chain cs (constructor p q r)"
  shows \<open>\<exists>ts. length ts = length cs \<and> command this = r # ts
       \<and> rgCommand (finalize this) = js_join '' '' (r # ts @ [''"'' @ p @ ''"'', q])
       \<and> rgCommand (finalize this) = js_join '' '' (r # ts) @ '' "'' @ p @ ''" '' @ q
       \<and> (\<forall>e e'. e (rgCommand (finalize this)) = e' (rgCommand (finalize this))
             \<longrightarrow> run e this = run e' this)\<close>
proof -
  obtain ts where ts: "length ts = length cs"
    "\<forall>p' q'. command (chain cs (constructor p' q' r)) = r # ts"
    using chain_constructor_command [of cs r] by blast
  have cmd: "command this = r # ts"
    using ts(2) assms(3) by simp
  have pat: \<open>pattern this = ''"'' @ p @ ''"''\<close> and pth: "path this = q"
    using assms by (simp_all add: chain_pattern chain_path constructor_def)
  have one: \<open>rgCommand (finalize this) = js_join '' '' (r # ts @ [''"'' @ p @ ''"'', q])\<close>
    using cmd pat pth by (simp add: rgCommand_def finalize_command)
  have two: \<open>rgCommand (finalize this) = js_join '' '' (r # ts) @ '' "'' @ p @ ''" '' @ q\<close>
    using cmd pat pth by (simp add: rgCommand_finalize) (simp add: rgCommand_def)
  have three: "\<forall>e e'. e (rgCommand (finalize this)) = e' (rgCommand (finalize this))
             \<longrightarrow> run e this = run e' this"
    by (simp add: run_def Let_def)
  show ?thesis using ts(1) cmd one two three by blast
qed

theorem command_line_shape_witness:
  \<open>Pcre2Version \<notin> set [WithFilename, LineNumber] \<and> TypeList \<notin> set [WithFilename, LineNumber]
   \<and> rgCommand (finalize (chain [WithFilename, LineNumber]
         (constructor ''he[l]{2}o'' ''/tmp/fixtures'' ''rg'')))
      = ''rg --with-filename --line-number "he[l]{2}o" /tmp/fixtures''\<close>
proof -
  have a: "Pcre2Version \<notin> set [WithFilename, LineNumber]" by simp
  have b: "TypeList \<notin> set [WithFilename, LineNumber]" by simp
  obtain ts where ts:
    "command (chain [WithFilename, LineNumber] (constructor ''he[l]{2}o'' ''/tmp/fixtures'' ''rg''))
       = ''rg'' # ts"
    \<open>rgCommand (finalize (chain [WithFilename, LineNumber]
         (constructor ''he[l]{2}o'' ''/tmp/fixtures'' ''rg'')))
      = js_join '' '' (''rg'' # ts) @ '' "'' @ ''he[l]{2}o'' @ ''" '' @ ''/tmp/fixtures''\<close>
    using command_line_shape [OF a b refl, of "''he[l]{2}o''" "''/tmp/fixtures''" "''rg''"] by blast
  have "ts = [''--with-filename'', ''--line-number'']"
    using ts(1) by (simp add: chain_def withFilename_def lineNumber_def command_push_def constructor_def)
  then show ?thesis using ts(2) a b by simp
qed

text \<open>
  Claim C8 as stated fails after \<open>pcre2Version()\<close>: the pattern is the empty string, so the
  command line ends in two spaces and holds no double quote.
\<close>

theorem pcre2Version_command_line_counterexample:
  "rgCommand (finalize (chain [Pcre2Version] (constructor ''x'' ''/tmp'' ''rg'')))
     = ''rg --pcre2-version  ''
   \<and> CHR 0x22 \<notin> set (rgCommand (finalize (chain [Pcre2Version] (constructor ''x'' ''/tmp'' ''rg''))))"
  by (simp add: rgCommand_def finalize_def command_push_def constructor_def chain_def
      pcre2Version_def)

section \<open>Failure of the process\<close>



text \<open>
  Claim C4. \<open>run\<close> has no throwing branch: the \<open>try\<close> covers \<open>execSync\<close>. When \<open>execSync\<close>
  throws at the command line of the instance, \<open>run()\<close> returns the finalized instance with
  the output it had; for an instance built by the constructor and option calls this is
  the initial empty string.
\<close>

theorem run_failure_is_caught:
  assumes "execSync (rgCommand (finalize this)) = Inl error"
  shows "fst (run execSync this) = finalize this
   \<and> output (fst (run execSync this)) = output this
   \<and> (this = chain cs (constructor p q r) \<longrightarrow> output (fst (run execSync this)) = [])"
proof -
  have caught: "fst (run execSync this) = finalize this"
    using assms by (simp add: run_def Let_def)
  then have same: "output (fst (run execSync this)) = output this"
    by (simp add: finalize_output)
  have "output (chain cs (constructor p q r)) = []"
    by (simp add: chain_output constructor_def)
  then have "this = chain cs (constructor p q r) \<longrightarrow> output (fst (run execSync this)) = []"
    using same by auto
  then show ?thesis using caught same by blast
qed

theorem run_failure_is_caught_witness:
  "execSync_fails None (Some ''rg: not found'')
       (rgCommand (finalize (chain [Json] (constructor ''x'' ''/tmp'' ''rg''))))
     = Inl \<lparr>stdout = None, stderr = Some ''rg: not found''\<rparr>
   \<and> output (fst (run (execSync_fails None (Some ''rg: not found''))
         (chain [Json] (constructor ''x'' ''/tmp'' ''rg'')))) = []"
proof -
  have h: "execSync_fails None (Some ''rg: not found'')
       (rgCommand (finalize (chain [Json] (constructor ''x'' ''/tmp'' ''rg''))))
     = Inl \<lparr>stdout = None, stderr = Some ''rg: not found''\<rparr>"
    by (simp add: execSync_fails_def)
  show ?thesis
    using h run_failure_is_caught
      [where execSync = "execSync_fails None (Some ''rg: not found'')"
         and this = "chain [Json] (constructor ''x'' ''/tmp'' ''rg'')"
         and error = "\<lparr>stdout = None, stderr = Some ''rg: not found''\<rparr>"
         and cs = "[Json]" and p = "''x''" and q = "''/tmp''" and r = "''rg''", OF h]
    by blast
qed

section \<open>Decoding the JSON lines\<close>

lemma get_type_Inl: "get_type v = Inl e \<longleftrightarrow> v = JNull \<and> e = TypeError"
  by (cases v) auto

lemma asJson_filter_callback_Inl:
  "asJson_filter_callback P l = Inl e \<longleftrightarrow>
     (P l = None \<and> e = SyntaxError) \<or> (P l = Some JNull \<and> e = TypeError)"
  by (auto simp add: asJson_filter_callback_def get_type_Inl split: option.splits sum.splits)

lemma asJson_filter_callback_Inr:
  "asJson_filter_callback P l = Inr b \<longleftrightarrow>
     (\<exists>v. P l = Some v \<and> v \<noteq> JNull \<and> b = (l \<noteq> [] \<and> is_match_line P l))"
  by (cases "P l"; cases "get_type (the (P l))")
     (auto simp add: asJson_filter_callback_def is_match_line_def get_type_Inl)

lemma callbacks_equal: "asObject_filter_callback P = asJson_filter_callback P"
  by (rule ext) (simp add: asObject_filter_callback_def asJson_filter_callback_def)

lemma js_filter_Inr:
  "\<forall>x\<in>set xs. \<exists>b. f x = Inr b \<Longrightarrow> js_filter f xs = Inr (filter (\<lambda>x. f x = Inr True) xs)"
  by (induction xs) auto

lemma js_filter_throws:
  assumes "\<exists>x\<in>set xs. \<exists>e. f x = Inl e"
  shows "\<exists>e. js_filter f xs = Inl e"
  using assms
proof (induction xs)
  case Nil
  then show ?case by simp
next
  case (Cons a xs)
  show ?case
  proof (cases "f a")
    case (Inl e)
    then show ?thesis by simp
  next
    case (Inr b)
    then have "\<exists>x\<in>set xs. \<exists>e. f x = Inl e" using Cons.prems by auto
    then obtain e where "js_filter f xs = Inl e" using Cons.IH by blast
    then show ?thesis using Inr by simp
  qed
qed

lemma js_filter_Inl_first:
  assumes "js_filter f xs = Inl e"
  shows "\<exists>pre x post. xs = pre @ x # post \<and> f x = Inl e \<and> (\<forall>y\<in>set pre. \<exists>b. f y = Inr b)"
  using assms
proof (induction xs)
  case Nil
  then show ?case by simp
next
  case (Cons a xs)
  show ?case
  proof (cases "f a")
    case (Inl e')
    then have "e' = e" using Cons.prems by simp
    then have "a # xs = [] @ a # xs \<and> f a = Inl e \<and> (\<forall>y\<in>set []. \<exists>b. f y = Inr b)"
      using Inl by simp
    then show ?thesis by blast
  next
    case (Inr b)
    then have "js_filter f xs = Inl e" using Cons.prems by (simp split: sum.splits)
    then obtain pre x post where h: "xs = pre @ x # post" "f x = Inl e"
      "\<forall>y\<in>set pre. \<exists>b. f y = Inr b" using Cons.IH by blast
    then have "a # xs = (a # pre) @ x # post \<and> f x = Inl e \<and> (\<forall>y\<in>set (a # pre). \<exists>b. f y = Inr b)"
      using Inr by simp
    then show ?thesis by blast
  qed
qed

lemma js_filter_kept:
  "js_filter f xs = Inr ys \<Longrightarrow> ys = filter (\<lambda>x. f x = Inr True) xs \<and> (\<forall>x\<in>set xs. \<exists>b. f x = Inr b)"
proof (induction xs arbitrary: ys)
  case Nil
  then show ?case by simp
next
  case (Cons a xs)
  then show ?case by (auto split: sum.splits if_splits)
qed

lemma js_map_parse:
  "js_map (asObject_map_callback P) xs = Inr ys \<longleftrightarrow> map P xs = map Some ys"
proof (induction xs arbitrary: ys)
  case Nil
  show ?case by auto
next
  case (Cons a xs)
  show ?case
  proof (cases "P a")
    case None
    then have "asObject_map_callback P a = Inl SyntaxError"
      by (simp add: asObject_map_callback_def)
    then show ?thesis using None by (cases ys) simp_all
  next
    case (Some v)
    then have cb: "asObject_map_callback P a = Inr v"
      by (simp add: asObject_map_callback_def)
    show ?thesis
    proof (cases "js_map (asObject_map_callback P) xs")
      case (Inl e)
      then have "\<And>zs. map P xs \<noteq> map Some zs" using Cons.IH by auto
      then show ?thesis using Some cb Inl by (cases ys) simp_all
    next
      case (Inr zs)
      then show ?thesis using Some cb Cons.IH [of "tl ys"] Cons.IH [of zs]
        by (cases ys) auto
    qed
  qed
qed

lemma js_map_parse_total:
  "\<forall>x\<in>set xs. P x \<noteq> None \<Longrightarrow> \<exists>ys. js_map (asObject_map_callback P) xs = Inr ys"
  by (induction xs) (auto simp add: asObject_map_callback_def)

lemma asJson_decodes:
  assumes "''--json'' \<in> set (command this)"
  shows "asJson P this = js_filter (asJson_filter_callback P) (output_lines this)"
  using assms by (simp add: asJson_def output_lines_def)

lemma asObject_decodes:
  assumes "''--json'' \<in> set (command this)"
  shows "asObject P this =
     (case js_filter (asJson_filter_callback P) (output_lines this) of
        Inl e \<Rightarrow> Inl e
      | Inr kept \<Rightarrow> js_map (asObject_map_callback P) kept)"
  using assms by (simp add: asObject_def output_lines_def callbacks_equal)

lemma kept_lines_parse:
  assumes "js_filter (asJson_filter_callback P) ls = Inr kept"
  shows "\<exists>objs. js_map (asObject_map_callback P) kept = Inr objs"
proof -
  have "kept = filter (\<lambda>x. asJson_filter_callback P x = Inr True) ls"
    using js_filter_kept [OF assms] by simp
  then have "\<forall>x\<in>set kept. P x \<noteq> None"
    by (auto simp add: asJson_filter_callback_Inr)
  then show ?thesis by (rule js_map_parse_total)
qed

lemma decode_failures_agree:
  "asJson P this = Inl e \<longleftrightarrow> asObject P this = Inl e"
proof (cases "''--json'' \<in> set (command this)")
  case False
  then show ?thesis by (simp add: asJson_def asObject_def)
next
  case True
  show ?thesis
  proof (cases "js_filter (asJson_filter_callback P) (output_lines this)")
    case (Inl e')
    then show ?thesis using True by (simp add: asJson_decodes asObject_decodes)
  next
    case (Inr kept)
    then obtain objs where "js_map (asObject_map_callback P) kept = Inr objs"
      using kept_lines_parse by blast
    then show ?thesis using True Inr by (simp add: asJson_decodes asObject_decodes)
  qed
qed

lemma filter_match_lines:
  assumes "\<forall>l\<in>set ls. \<exists>v. P l = Some v \<and> v \<noteq> JNull" and "P [] = None"
  shows "js_filter (asJson_filter_callback P) ls = Inr (filter (is_match_line P) ls)"
proof -
  have total: "\<forall>l\<in>set ls. \<exists>b. asJson_filter_callback P l = Inr b"
    using assms(1) by (simp add: asJson_filter_callback_Inr)
  have "\<forall>l\<in>set ls. l \<noteq> []"
    using assms by auto
  then have "\<forall>l\<in>set ls. (asJson_filter_callback P l = Inr True) = is_match_line P l"
    using assms(1) by (auto simp add: asJson_filter_callback_Inr)
  then have "filter (\<lambda>l. asJson_filter_callback P l = Inr True) ls = filter (is_match_line P) ls"
    by (simp cong: filter_cong)
  then show ?thesis using js_filter_Inr [OF total] by simp
qed

text \<open>
  Claim C5, amended. For every output whose lines all parse as JSON values other than
  \<open>null\<close>, \<open>asJson()\<close> trims the output, splits it on newlines, keeps exactly the lines whose
  parsed \<open>type\<close> is \<open>"match"\<close> and returns these lines themselves, in order.
  (\<open>JSON.parse\<close> rejects the empty text.)
\<close>

theorem asJson_returns_match_lines:
  assumes "''--json'' \<in> set (command this)"
    and "\<forall>l\<in>set (output_lines this). \<exists>v. JSON_parse l = Some v \<and> v \<noteq> JNull"
    and "JSON_parse [] = None"
  shows "asJson JSON_parse this = Inr (filter (is_match_line JSON_parse) (output_lines this))
       \<and> output_lines this = js_split (CHR 0x0A) (js_trim (output this))"
  using assms by (simp add: asJson_decodes filter_match_lines) (simp add: output_lines_def)

lemmas sample_run_defs =
  run_def finalize_def command_push_def constructor_def chain_def json_def
  execSync_prints_def execSync_fails_def rgCommand_def

lemmas sample_decode_defs =
  output_lines_def js_trim_def is_white_space_def sample_JSON_parse_def sample_output_def
  is_match_line_def asJson_def asObject_def asJson_filter_callback_def
  asObject_filter_callback_def asObject_map_callback_def

lemma sample_output_lines:
  \<open>output_lines (fst (run (execSync_prints sample_output) (chain [Json] (constructor ''x'' ''/tmp'' ''rg''))))
     = [''{"type":"begin"}'', ''{"type":"match","data":{"line_number":3}}'', ''{"type":"end"}'']\<close>
  by (simp add: sample_run_defs output_lines_def js_trim_def is_white_space_def sample_output_def)

lemma sample_command:
  \<open>command (fst (run (execSync_prints sample_output) (chain [Json] (constructor ''x'' ''/tmp'' ''rg''))))
     = [''rg'', ''--json'', ''"x"'', ''/tmp'']\<close>
  by (simp add: sample_run_defs)

theorem asJson_returns_match_lines_witness:
  \<open>''--json'' \<in> set (command (fst (run (execSync_prints sample_output)
        (chain [Json] (constructor ''x'' ''/tmp'' ''rg'')))))
   \<and> sample_JSON_parse [] = None
   \<and> asJson sample_JSON_parse
        (fst (run (execSync_prints sample_output) (chain [Json] (constructor ''x'' ''/tmp'' ''rg''))))
      = Inr [''{"type":"match","data":{"line_number":3}}'']\<close>
proof -
  let ?st = "fst (run (execSync_prints sample_output) (chain [Json] (constructor ''x'' ''/tmp'' ''rg'')))"
  have flag: "''--json'' \<in> set (command ?st)"
    by (simp add: sample_command)
  have parse: "\<forall>l\<in>set (output_lines ?st). \<exists>v. sample_JSON_parse l = Some v \<and> v \<noteq> JNull"
    by (simp add: sample_output_lines) (simp add: sample_JSON_parse_def)
  have empty: "sample_JSON_parse [] = None"
    by (simp add: sample_JSON_parse_def)
  have \<open>filter (is_match_line sample_JSON_parse) (output_lines ?st)
      = [''{"type":"match","data":{"line_number":3}}'']\<close>
    by (simp add: sample_output_lines) (simp add: is_match_line_def sample_JSON_parse_def)
  then show ?thesis
    using flag empty asJson_returns_match_lines [OF flag parse empty] by simp
qed

text \<open>
  Claim C5 as stated fails on the output \<open>null\<close>: the line parses as JSON, and reading
  \<open>.type\<close> of the parsed \<open>null\<close> throws a \<open>TypeError\<close>.
\<close>

theorem asJson_null_line_counterexample:
  "map sample_JSON_parse
     (output_lines (fst (run (execSync_prints ''null'') (chain [Json] (constructor ''x'' ''/tmp'' ''rg'')))))
     = [Some JNull]
   \<and> asJson sample_JSON_parse
        (fst (run (execSync_prints ''null'') (chain [Json] (constructor ''x'' ''/tmp'' ''rg''))))
     = Inl TypeError"
  by (simp add: sample_run_defs sample_decode_defs)

lemma callback_keeps:
  "asJson_filter_callback P l = Inr True \<longleftrightarrow> l \<noteq> [] \<and> is_match_line P l"
proof (cases "P l")
  case None
  then show ?thesis
    by (simp add: asJson_filter_callback_def is_match_line_def)
next
  case (Some v)
  then show ?thesis
    by (cases "get_type v") (simp_all add: asJson_filter_callback_def is_match_line_def)
qed

lemma js_filter_positions:
  assumes "js_filter (asJson_filter_callback P) ls = Inr kept"
  shows "kept = nths ls {i. i < length ls \<and> ls ! i \<noteq> [] \<and> is_match_line P (ls ! i)}"
proof -
  have "kept = filter (\<lambda>l. asJson_filter_callback P l = Inr True) ls"
    using js_filter_kept [OF assms] by simp
  then have "kept = filter (\<lambda>l. l \<noteq> [] \<and> is_match_line P l) ls"
    by (simp add: callback_keeps)
  then show ?thesis by (simp only: filter_eq_nths)
qed

lemma js_filter_null_first:
  assumes "\<forall>x\<in>set front. P x \<noteq> None" and "P l = Some JNull"
  shows "js_filter (asJson_filter_callback P) (front @ l # post) = Inl TypeError"
  using assms(1)
proof (induction front)
  case Nil
  have "asJson_filter_callback P l = Inl TypeError"
    using assms(2) by (simp add: asJson_filter_callback_Inl)
  then show ?case by simp
next
  case (Cons a front)
  then have rest: "js_filter (asJson_filter_callback P) (front @ l # post) = Inl TypeError"
    by simp
  obtain v where v: "P a = Some v" using Cons.prems by auto
  show ?case
  proof (cases "asJson_filter_callback P a")
    case (Inl e)
    then have "e = TypeError" using v by (simp add: asJson_filter_callback_Inl)
    then show ?thesis using Inl by simp
  next
    case (Inr b)
    then show ?thesis using rest by simp
  qed
qed

text \<open>
  Claim C6. \<open>asJson()\<close> and \<open>asObject()\<close> agree on every output. One view throws an error
  exactly when the other throws the same error. When \<open>asJson()\<close> returns, it returns the
  lines at the positions whose line has the parsed \<open>type\<close> \<open>"match"\<close> (and is not the empty
  string, which the callback would hand back as a false value), and \<open>asObject()\<close> returns,
  position by position, the value \<open>JSON.parse\<close> gives for the string \<open>asJson()\<close> returns
  there. Both return when the flag is present and every line parses to a value other than
  \<open>null\<close>.
\<close>

theorem views_retain_same_positions:
  "(\<forall>e. asJson JSON_parse this = Inl e \<longleftrightarrow> asObject JSON_parse this = Inl e)
   \<and> (\<forall>kept. asJson JSON_parse this = Inr kept \<longrightarrow>
          kept = nths (output_lines this)
                   {i. i < length (output_lines this) \<and> output_lines this ! i \<noteq> []
                       \<and> is_match_line JSON_parse (output_lines this ! i)}
        \<and> (\<exists>objs. asObject JSON_parse this = Inr objs \<and> map JSON_parse kept = map Some objs))
   \<and> (''--json'' \<in> set (command this)
        \<and> (\<forall>l\<in>set (output_lines this). \<exists>v. JSON_parse l = Some v \<and> v \<noteq> JNull)
      \<longrightarrow> (\<exists>kept. asJson JSON_parse this = Inr kept))"
proof -
  let ?ls = "output_lines this"
  let ?cb = "asJson_filter_callback JSON_parse"
  have agree: "\<forall>e. asJson JSON_parse this = Inl e \<longleftrightarrow> asObject JSON_parse this = Inl e"
    using decode_failures_agree by blast
  have returned: "kept = nths ?ls {i. i < length ?ls \<and> ?ls ! i \<noteq> [] \<and> is_match_line JSON_parse (?ls ! i)}
        \<and> (\<exists>objs. asObject JSON_parse this = Inr objs \<and> map JSON_parse kept = map Some objs)"
    if ret: "asJson JSON_parse this = Inr kept" for kept
  proof -
    have flag: "''--json'' \<in> set (command this)"
      using ret by (cases "''--json'' \<in> set (command this)") (simp_all add: asJson_def)
    then have kept: "js_filter ?cb ?ls = Inr kept"
      using ret by (simp add: asJson_decodes)
    then obtain objs where objs: "js_map (asObject_map_callback JSON_parse) kept = Inr objs"
      using kept_lines_parse by blast
    then have "map JSON_parse kept = map Some objs"
      by (simp add: js_map_parse)
    moreover have "asObject JSON_parse this = Inr objs"
      using flag kept objs by (simp add: asObject_decodes)
    ultimately show ?thesis using js_filter_positions [OF kept] by blast
  qed
  have returns: "\<exists>kept. asJson JSON_parse this = Inr kept"
    if flag: "''--json'' \<in> set (command this)"
      and parse: "\<forall>l\<in>set ?ls. \<exists>v. JSON_parse l = Some v \<and> v \<noteq> JNull"
  proof -
    have "\<forall>l\<in>set ?ls. \<exists>b. ?cb l = Inr b"
      using parse by (simp add: asJson_filter_callback_Inr)
    then have "js_filter ?cb ?ls = Inr (filter (\<lambda>x. ?cb x = Inr True) ?ls)"
      by (rule js_filter_Inr)
    then show ?thesis using flag by (simp add: asJson_decodes)
  qed
  show ?thesis using agree returned returns by blast
qed

theorem views_retain_same_positions_witness:
  \<open>''--json'' \<in> set (command (fst (run (execSync_prints sample_output)
        (chain [Json] (constructor ''x'' ''/tmp'' ''rg'')))))
   \<and> asJson sample_JSON_parse
        (fst (run (execSync_prints sample_output) (chain [Json] (constructor ''x'' ''/tmp'' ''rg''))))
      = Inr [''{"type":"match","data":{"line_number":3}}'']
   \<and> asObject sample_JSON_parse
        (fst (run (execSync_prints sample_output) (chain [Json] (constructor ''x'' ''/tmp'' ''rg''))))
      = Inr [JObject [(''type'', JString ''match''),
                      (''data'', JObject [(''line_number'', JNumber 3)])]]\<close>
proof -
  let ?st = "fst (run (execSync_prints sample_output) (chain [Json] (constructor ''x'' ''/tmp'' ''rg'')))"
  let ?pos = "nths (output_lines ?st)
      {i. i < length (output_lines ?st) \<and> output_lines ?st ! i \<noteq> []
          \<and> is_match_line sample_JSON_parse (output_lines ?st ! i)}"
  note facts = views_retain_same_positions [where JSON_parse = sample_JSON_parse and this = ?st]
  have flag: "''--json'' \<in> set (command ?st)"
    by (simp add: sample_command)
  have parse: "\<forall>l\<in>set (output_lines ?st). \<exists>v. sample_JSON_parse l = Some v \<and> v \<noteq> JNull"
    by (simp add: sample_output_lines) (simp add: sample_JSON_parse_def)
  have "\<exists>kept. asJson sample_JSON_parse ?st = Inr kept"
    using facts [THEN conjunct2, THEN conjunct2, THEN mp, OF conjI [OF flag parse]] .
  then obtain kept where kept: "asJson sample_JSON_parse ?st = Inr kept" ..
  have both: "kept = ?pos
      \<and> (\<exists>objs. asObject sample_JSON_parse ?st = Inr objs \<and> map sample_JSON_parse kept = map Some objs)"
    using facts [THEN conjunct2, THEN conjunct1, THEN spec, THEN mp, OF kept] .
  have \<open>filter (\<lambda>l. l \<noteq> [] \<and> is_match_line sample_JSON_parse l) (output_lines ?st)
      = [''{"type":"match","data":{"line_number":3}}'']\<close>
    by (simp add: sample_output_lines) (simp add: is_match_line_def sample_JSON_parse_def)
  then have \<open>?pos = [''{"type":"match","data":{"line_number":3}}'']\<close>
    by (simp only: filter_eq_nths)
  then have lines: \<open>kept = [''{"type":"match","data":{"line_number":3}}'']\<close>
    using both by simp
  obtain objs where objs: "asObject sample_JSON_parse ?st = Inr objs"
    "map sample_JSON_parse kept = map Some objs"
    using both by blast
  have "map Some objs = [Some (JObject [(''type'', JString ''match''),
                      (''data'', JObject [(''line_number'', JNumber 3)])])]"
    using objs(2) unfolding lines by (simp add: sample_JSON_parse_def)
  then have "objs = [JObject [(''type'', JString ''match''),
                      (''data'', JObject [(''line_number'', JNumber 3)])]]"
    by auto
  then show ?thesis using flag kept objs(1) unfolding lines by simp
qed

text \<open>
  Claim C7, amended. For every output with at least one line that is not valid JSON, and
  the JSON flag among the tokens, \<open>asJson()\<close> and \<open>asObject()\<close> catch nothing: both abort with
  the same thrown failure and return no partial result. When some line that parses to
  \<open>null\<close> has no malformed line before it, the failure is the \<open>TypeError\<close> of reading \<open>.type\<close>
  of \<open>null\<close>; in every other case it is the parse failure.
\<close>

theorem malformed_line_aborts_decode:
  assumes "''--json'' \<in> set (command this)"
    and "\<exists>l\<in>set (output_lines this). JSON_parse l = None"
  shows "((\<exists>pre l post. output_lines this = pre @ l # post \<and> JSON_parse l = Some JNull
              \<and> (\<forall>x\<in>set pre. JSON_parse x \<noteq> None))
            \<longrightarrow> asJson JSON_parse this = Inl TypeError \<and> asObject JSON_parse this = Inl TypeError)
       \<and> (\<not> (\<exists>pre l post. output_lines this = pre @ l # post \<and> JSON_parse l = Some JNull
              \<and> (\<forall>x\<in>set pre. JSON_parse x \<noteq> None))
            \<longrightarrow> asJson JSON_parse this = Inl SyntaxError \<and> asObject JSON_parse this = Inl SyntaxError)"
proof -
  let ?cb = "asJson_filter_callback JSON_parse"
  let ?null_first = "\<exists>pre l post. output_lines this = pre @ l # post \<and> JSON_parse l = Some JNull
              \<and> (\<forall>x\<in>set pre. JSON_parse x \<noteq> None)"
  have views: "asJson JSON_parse this = Inl e \<and> asObject JSON_parse this = Inl e"
    if "js_filter ?cb (output_lines this) = Inl e" for e
    using assms(1) that by (simp add: asJson_decodes asObject_decodes)
  have type_error: "asJson JSON_parse this = Inl TypeError \<and> asObject JSON_parse this = Inl TypeError"
    if null_first: ?null_first
  proof -
    obtain pre l post where h: "output_lines this = pre @ l # post" "JSON_parse l = Some JNull"
      "\<forall>x\<in>set pre. JSON_parse x \<noteq> None"
      using null_first by blast
    have "js_filter ?cb (pre @ l # post) = Inl TypeError"
      using h(3) h(2) by (rule js_filter_null_first)
    then have "js_filter ?cb (output_lines this) = Inl TypeError"
      using h(1) by simp
    then show ?thesis by (rule views)
  qed
  have syntax_error: "asJson JSON_parse this = Inl SyntaxError \<and> asObject JSON_parse this = Inl SyntaxError"
    if no: "\<not> ?null_first"
  proof -
    obtain bad where bad: "bad \<in> set (output_lines this)" "JSON_parse bad = None"
      using assms(2) by blast
    have "?cb bad = Inl SyntaxError"
      using bad(2) by (simp add: asJson_filter_callback_Inl)
    then have "\<exists>l\<in>set (output_lines this). \<exists>e. ?cb l = Inl e"
      using bad(1) by blast
    then have "\<exists>e. js_filter ?cb (output_lines this) = Inl e"
      by (rule js_filter_throws)
    then obtain e where e: "js_filter ?cb (output_lines this) = Inl e" ..
    obtain pre l post where first: "output_lines this = pre @ l # post" "?cb l = Inl e"
      "\<forall>y\<in>set pre. \<exists>b. ?cb y = Inr b"
      using js_filter_Inl_first [OF e] by blast
    have pre: "\<forall>x\<in>set pre. JSON_parse x \<noteq> None"
    proof
      fix x
      assume "x \<in> set pre"
      then obtain b where "?cb x = Inr b" using first(3) by blast
      then obtain v where "JSON_parse x = Some v"
        unfolding asJson_filter_callback_Inr by blast
      then show "JSON_parse x \<noteq> None" by simp
    qed
    have cases: "(JSON_parse l = None \<and> e = SyntaxError) \<or> (JSON_parse l = Some JNull \<and> e = TypeError)"
      using first(2) unfolding asJson_filter_callback_Inl .
    have "e = SyntaxError"
    proof (rule ccontr)
      assume "e \<noteq> SyntaxError"
      then have "JSON_parse l = Some JNull" using cases by blast
      then have "output_lines this = pre @ l # post \<and> JSON_parse l = Some JNull
              \<and> (\<forall>x\<in>set pre. JSON_parse x \<noteq> None)"
        using first(1) pre by simp
      then have ?null_first by (intro exI)
      then show False using no by simp
    qed
    then have "js_filter ?cb (output_lines this) = Inl SyntaxError"
      using e by simp
    then show ?thesis by (rule views)
  qed
  show ?thesis using type_error syntax_error by blast
qed

theorem malformed_line_aborts_decode_witness:
  \<open>sample_JSON_parse ''{'' = None
   \<and> asJson sample_JSON_parse
        (fst (run (execSync_prints ''{"type":"begin"}\<newline>{'')
           (chain [Json] (constructor ''x'' ''/tmp'' ''rg''))))
      = Inl SyntaxError
   \<and> asObject sample_JSON_parse
        (fst (run (execSync_prints ''{"type":"begin"}\<newline>{'')
           (chain [Json] (constructor ''x'' ''/tmp'' ''rg''))))
      = Inl SyntaxError
   \<and> asJson sample_JSON_parse
        (fst (run (execSync_prints ''{"type":"begin"}\<newline>null\<newline>{'')
           (chain [Json] (constructor ''x'' ''/tmp'' ''rg''))))
      = Inl TypeError
   \<and> asObject sample_JSON_parse
        (fst (run (execSync_prints ''{"type":"begin"}\<newline>null\<newline>{'')
           (chain [Json] (constructor ''x'' ''/tmp'' ''rg''))))
      = Inl TypeError\<close>
proof -
  let ?a = \<open>fst (run (execSync_prints ''{"type":"begin"}\<newline>{'')
        (chain [Json] (constructor ''x'' ''/tmp'' ''rg'')))\<close>
  let ?b = \<open>fst (run (execSync_prints ''{"type":"begin"}\<newline>null\<newline>{'')
        (chain [Json] (constructor ''x'' ''/tmp'' ''rg'')))\<close>
  have bad: "sample_JSON_parse ''{'' = None"
    by (simp add: sample_JSON_parse_def)
  have lines_a: \<open>output_lines ?a = [''{"type":"begin"}'', ''{'']\<close>
    by (simp add: sample_run_defs output_lines_def js_trim_def is_white_space_def)
  have lines_b: \<open>output_lines ?b = [''{"type":"begin"}'', ''null'', ''{'']\<close>
    by (simp add: sample_run_defs output_lines_def js_trim_def is_white_space_def)
  have flag_a: "''--json'' \<in> set (command ?a)" and flag_b: "''--json'' \<in> set (command ?b)"
    by (simp_all add: sample_run_defs)
  have malformed_a: "\<exists>l\<in>set (output_lines ?a). sample_JSON_parse l = None"
    unfolding lines_a using bad by simp
  have malformed_b: "\<exists>l\<in>set (output_lines ?b). sample_JSON_parse l = None"
    unfolding lines_b using bad by simp
  have no_null_a: "\<not> (\<exists>pre l post. output_lines ?a = pre @ l # post \<and> sample_JSON_parse l = Some JNull
                \<and> (\<forall>x\<in>set pre. sample_JSON_parse x \<noteq> None))"
  proof
    assume "\<exists>pre l post. output_lines ?a = pre @ l # post \<and> sample_JSON_parse l = Some JNull
                \<and> (\<forall>x\<in>set pre. sample_JSON_parse x \<noteq> None)"
    then obtain pre l post where h: "output_lines ?a = pre @ l # post"
      "sample_JSON_parse l = Some JNull" by blast
    then have "l \<in> set (output_lines ?a)" by simp
    then have \<open>l = ''{"type":"begin"}'' \<or> l = ''{''\<close>
      unfolding lines_a by simp
    then show False using h(2) by (auto simp add: sample_JSON_parse_def)
  qed
  have \<open>output_lines ?b = [''{"type":"begin"}''] @ ''null'' # [''{'']
       \<and> sample_JSON_parse ''null'' = Some JNull
       \<and> (\<forall>x\<in>set [''{"type":"begin"}'']. sample_JSON_parse x \<noteq> None)\<close>
    unfolding lines_b by (simp add: sample_JSON_parse_def)
  then have null_b: "\<exists>pre l post. output_lines ?b = pre @ l # post \<and> sample_JSON_parse l = Some JNull
                \<and> (\<forall>x\<in>set pre. sample_JSON_parse x \<noteq> None)"
    by (intro exI)
  show ?thesis
    using bad
      malformed_line_aborts_decode
        [where JSON_parse = sample_JSON_parse and this = ?a, OF flag_a malformed_a,
          THEN conjunct2, THEN mp, OF no_null_a]
      malformed_line_aborts_decode
        [where JSON_parse = sample_JSON_parse and this = ?b, OF flag_b malformed_b,
          THEN conjunct1, THEN mp, OF null_b]
    by simp
qed

text \<open>
  Claim C7 as stated fails on the output of the line \<open>null\<close> followed by the malformed line
  \<open>{\<close>: the failure both views throw is the \<open>TypeError\<close> of the first line, not a parse
  failure.
\<close>

theorem null_before_malformed_counterexample:
  "sample_JSON_parse ''{'' = None
   \<and> output_lines (fst (run (execSync_prints ''null\<newline>{'')
        (chain [Json] (constructor ''x'' ''/tmp'' ''rg''))))
     = [''null'', ''{'']
   \<and> asJson sample_JSON_parse
        (fst (run (execSync_prints ''null\<newline>{'')
           (chain [Json] (constructor ''x'' ''/tmp'' ''rg''))))
     = Inl TypeError
   \<and> asObject sample_JSON_parse
        (fst (run (execSync_prints ''null\<newline>{'')
           (chain [Json] (constructor ''x'' ''/tmp'' ''rg''))))
     = Inl TypeError"
  by (simp add: sample_run_defs sample_decode_defs)

text \<open>
  Claim C10. When the output is the empty string and the token \<open>--json\<close> is among the
  tokens, the trimmed output splits into the single line \<open>''\<close>, on which \<open>JSON.parse\<close>
  throws; \<open>asJson()\<close> and \<open>asObject()\<close> throw this parse failure and return no empty sequence.
\<close>

theorem empty_output_throws_parse_failure:
  assumes "JSON_parse [] = None"
    and "''--json'' \<in> set (command this)"
    and "output this = []"
  shows "output_lines this = [[]]
       \<and> asJson JSON_parse this = Inl SyntaxError
       \<and> asObject JSON_parse this = Inl SyntaxError"
proof -
  have lines: "output_lines this = [[]]"
    using assms(3) by (simp add: output_lines_def js_trim_def)
  have "asJson_filter_callback JSON_parse [] = Inl SyntaxError"
    using assms(1) by (simp add: asJson_filter_callback_Inl)
  then have "js_filter (asJson_filter_callback JSON_parse) (output_lines this) = Inl SyntaxError"
    by (simp add: lines)
  then show ?thesis
    using assms(2) lines by (simp add: asJson_decodes asObject_decodes)
qed

theorem empty_output_throws_parse_failure_witness:
  "sample_JSON_parse [] = None
   \<and> ''--json'' \<in> set (command (fst (run (execSync_fails None (Some ''rg: not found''))
        (chain [Json] (constructor ''x'' ''/tmp'' ''rg'')))))
   \<and> output (fst (run (execSync_fails None (Some ''rg: not found''))
        (chain [Json] (constructor ''x'' ''/tmp'' ''rg'')))) = []
   \<and> asJson sample_JSON_parse (fst (run (execSync_fails None (Some ''rg: not found''))
        (chain [Json] (constructor ''x'' ''/tmp'' ''rg'')))) = Inl SyntaxError
   \<and> asObject sample_JSON_parse (chain [Json] (constructor ''x'' ''/tmp'' ''rg''))
      = Inl SyntaxError"
proof -
  let ?before = "chain [Json] (constructor ''x'' ''/tmp'' ''rg'')"
  let ?after = "fst (run (execSync_fails None (Some ''rg: not found'')) ?before)"
  have empty: "sample_JSON_parse [] = None"
    by (simp add: sample_JSON_parse_def)
  have flag: "''--json'' \<in> set (command ?after)" and out: "output ?after = []"
    by (simp_all add: sample_run_defs)
  have flag': "''--json'' \<in> set (command ?before)" and out': "output ?before = []"
    by (simp_all add: sample_run_defs)
  show ?thesis
    using empty flag out
      empty_output_throws_parse_failure
        [where JSON_parse = sample_JSON_parse and this = ?after, OF empty flag out]
      empty_output_throws_parse_failure
        [where JSON_parse = sample_JSON_parse and this = ?before, OF empty flag' out']
    by simp
qed

end
